theory Spec2Isabelle
  imports Main "HOL-Library.Sublist"
begin

section \<open>Strings\<close>

text \<open>
  A Python \<open>str\<close> is a sequence of code points. The model takes the code points below
  256, one \<open>char\<close> each, so a \<open>string\<close> of the model is a Python string over that range
  and \<open>length\<close> counts what Python's \<open>len\<close> counts. The three character classes the
  program relies on (\<open>str.lower\<close>, the whitespace of \<open>str.strip\<close>, the word characters
  of the pattern \<open>\w\<close>) are CPython's, cut down to that range.
\<close>

definition newline :: char where
  "newline = CHR 0x0A"

definition isspace :: "char \<Rightarrow> bool" where
  \<comment> \<open>tab, line feed, vertical tab, form feed, carriage return, the four separators
      0x1C to 0x1F, space, next line (0x85) and no-break space (0xA0)\<close>
  "isspace c = (let n = (of_char c :: nat) in
     (9 \<le> n \<and> n \<le> 13) \<or> (28 \<le> n \<and> n \<le> 32) \<or> n = 133 \<or> n = 160)"

definition isupper :: "char \<Rightarrow> bool" where
  \<comment> \<open>the code points with a lower-case partner: A to Z, and 0xC0 to 0xDE but for the
      multiplication sign 0xD7\<close>
  "isupper c = (let n = (of_char c :: nat) in
     (65 \<le> n \<and> n \<le> 90) \<or> (192 \<le> n \<and> n \<le> 214) \<or> (216 \<le> n \<and> n \<le> 222))"

definition lower_char :: "char \<Rightarrow> char" where
  "lower_char c = (if isupper c then char_of ((of_char c :: nat) + 32) else c)"

definition lower :: "string \<Rightarrow> string" where
  "lower s = map lower_char s"

definition isword :: "char \<Rightarrow> bool" where
  \<comment> \<open>\<open>\w\<close> of a \<open>str\<close> pattern: the underscore and every alphanumeric code point, which
      below 256 are the digits, the letters, the two ordinal indicators, the micro sign,
      the superscripts 1 to 3 and the three vulgar fractions\<close>
  "isword c = (let n = (of_char c :: nat) in
     (48 \<le> n \<and> n \<le> 57) \<or> (65 \<le> n \<and> n \<le> 90) \<or> n = 95 \<or> (97 \<le> n \<and> n \<le> 122) \<or>
     n = 170 \<or> n = 178 \<or> n = 179 \<or> n = 181 \<or> (185 \<le> n \<and> n \<le> 186) \<or>
     (188 \<le> n \<and> n \<le> 190) \<or> (192 \<le> n \<and> n \<le> 214) \<or> (216 \<le> n \<and> n \<le> 246) \<or>
     248 \<le> n)"

definition strip :: "string \<Rightarrow> string" where
  \<comment> \<open>\<open>s.strip()\<close>: the whitespace at both ends goes\<close>
  "strip s = rev (dropWhile isspace (rev (dropWhile isspace s)))"

definition startswith :: "string \<Rightarrow> string \<Rightarrow> bool" where
  "startswith s p = prefix p s"

definition endswith :: "string \<Rightarrow> string \<Rightarrow> bool" where
  "endswith s p = suffix p s"

fun contains :: "string \<Rightarrow> string \<Rightarrow> bool" where
  \<comment> \<open>\<open>p in s\<close>: \<open>p\<close> starts at some position of \<open>s\<close>\<close>
  "contains [] p = (p = [])"
| "contains (c # s) p = (prefix p (c # s) \<or> contains s p)"

definition count_char :: "string \<Rightarrow> char \<Rightarrow> nat" where
  \<comment> \<open>\<open>s.count(c)\<close> for a string \<open>c\<close> of one character\<close>
  "count_char s c = length (filter (\<lambda>d. d = c) s)"

section \<open>The language table and the language detector\<close>

definition language_map :: "(string \<times> string) list" where
  \<comment> \<open>the dict literal, in insertion order, which is the order \<open>items()\<close> yields\<close>
  "language_map =
    [(''dutch'', ''nl''), (''german'', ''de''), (''italian'', ''it''), (''japanese'', ''ja''),
     (''korean'', ''ko''), (''polish'', ''pl''), (''portuguese'', ''pt''), (''russian'', ''ru''),
     (''spanish'', ''es''), (''turkish'', ''tr''), (''french'', ''fr''), (''fr'', ''fr''),
     (''english'', ''en'')]"

fun detect_loop :: "(string \<times> string) list \<Rightarrow> string \<Rightarrow> string option" where
  \<comment> \<open>the \<open>for lang, code in ...\<close> loop, with its \<open>return code\<close> and the final
      \<open>return None\<close>\<close>
  "detect_loop [] lower_name = None"
| "detect_loop ((lang, code) # rest) lower_name =
     (if contains lower_name lang then Some code else detect_loop rest lower_name)"

definition detect_language_code :: "string \<Rightarrow> string option" where
  "detect_language_code file_name = detect_loop language_map (lower file_name)"

section \<open>The placeholder extractor\<close>

text \<open>
  \<open>re.findall\<close> with the pattern \<open>{(\w+)}\<close> scans from the left. At an opening brace it
  takes the longest run of word characters; the match stands when the run is not empty
  and a closing brace follows, and the scan goes on behind that brace. Otherwise the scan
  goes on one character further. A shorter run never helps, since the character after
  it is a word character and not the brace.
\<close>

function findall_params :: "string \<Rightarrow> string list" where
  "findall_params [] = []"
| "findall_params (c # s) =
     (if c = CHR ''{'' then
        (let w = takeWhile isword s; r = dropWhile isword s in
         if w \<noteq> [] \<and> r \<noteq> [] \<and> hd r = CHR ''}''
         then w # findall_params (tl r)
         else findall_params s)
      else findall_params s)"
  by pat_completeness auto
termination
proof (relation "measure length")
  fix c :: char and s w r :: string
  assume "r = dropWhile isword s"
  then have "length r \<le> length s"
    by (simp add: length_dropWhile_le)
  then show "(tl r, c # s) \<in> measure length"
    by simp
qed simp_all

definition extract_params :: "string \<Rightarrow> string set" where
  \<comment> \<open>\<open>set(matches)\<close>\<close>
  "extract_params text = set (findall_params text)"

section \<open>The text issue checker\<close>

definition check_text_issues :: "string \<Rightarrow> string \<Rightarrow> string \<Rightarrow> string list" where
  \<comment> \<open>each \<open>issues.append\<close> in the order of the source\<close>
  "check_text_issues source target lang_code =
     (if startswith source '' '' \<and> \<not> startswith target '' ''
      then [''missing_start_space''] else []) @
     (if endswith source '' '' \<and> \<not> endswith target '' ''
      then [''missing_end_space''] else []) @
     (if startswith source [newline] \<and> \<not> startswith target [newline]
      then [''missing_start_line_break''] else []) @
     (if endswith source [newline] \<and> \<not> endswith target [newline]
      then [''missing_end_line_break''] else []) @
     (if count_char source newline \<noteq> count_char target newline
      then [''wrong_line_break_count''] else []) @
     (if lang_code \<noteq> ''ja'' then
        (if endswith source ''.'' \<and> \<not> endswith target ''.'' then [''missing_end_dot'']
         else if \<not> endswith source ''.'' \<and> endswith target ''.'' then [''extra_end_dot'']
         else [])
      else [])"

section \<open>The comparator\<close>

text \<open>
  A value of a parsed file is a \<open>str\<close> or something else (a number, a boolean, null, a
  list, an object); the comparator only asks which of the two it is, so whatever else
  it may be is left open as \<open>'a\<close>. A parsed file is a dict from keys to values, held as
  the list of its items in insertion order.
\<close>

datatype 'a jvalue = JStr string | JOther 'a

type_synonym 'a arb = "(string \<times> 'a jvalue) list"

datatype error = KeyError string

definition getitem :: "'a arb \<Rightarrow> string \<Rightarrow> error + 'a jvalue" where
  \<comment> \<open>\<open>d[k]\<close>, which raises on a key that \<open>d\<close> does not have\<close>
  "getitem d k = (case map_of d k of None \<Rightarrow> Inl (KeyError k) | Some v \<Rightarrow> Inr v)"

record issue =
  key :: string
  reference :: string
  target :: string
  missingParams :: "string set"
  extraParams :: "string set"
  textIssues :: "string list"

text \<open>
  \<open>missingParams\<close> and \<open>extraParams\<close> are lists in the source, filled by iterating a
  set of strings, in an order Python does not fix. The model keeps the set.
\<close>

record loop_state =
  empty_translations :: "string list"
  identical_translations :: "string list"
  parameter_issues :: "issue list"

record report =
  langCode :: string
  missingKeys :: "string list"
  extraKeys :: "string list"
  emptyTranslations :: "string list"
  identicalTranslations :: "string list"
  parameterIssues :: "issue list"

definition analyse :: "string \<Rightarrow> string \<Rightarrow> string \<Rightarrow> string \<Rightarrow> loop_state \<Rightarrow> loop_state" where
  \<comment> \<open>the loop body from \<open># Check empty\<close> on, with both values already stripped\<close>
  "analyse k ref_val tgt_val lang_code st =
     (let st1 = (if tgt_val = [] then
                   st\<lparr>empty_translations := empty_translations st @ [k]\<rparr>
                 else if ref_val = tgt_val then
                   st\<lparr>identical_translations := identical_translations st @ [k]\<rparr>
                 else st);
          ref_params = extract_params ref_val;
          tgt_params = extract_params tgt_val;
          missing_params = {p \<in> ref_params. p \<notin> tgt_params};
          extra_params = {p \<in> tgt_params. p \<notin> ref_params};
          text_issues = check_text_issues ref_val tgt_val lang_code
      in if missing_params \<noteq> {} \<or> extra_params \<noteq> {} \<or> text_issues \<noteq> [] then
           st1\<lparr>parameter_issues := parameter_issues st1 @
             [\<lparr>key = k, reference = ref_val, target = tgt_val,
               missingParams = missing_params, extraParams = extra_params,
               textIssues = text_issues\<rparr>]\<rparr>
         else st1)"

definition loop_body ::
  "'a arb \<Rightarrow> 'a arb \<Rightarrow> string list \<Rightarrow> string \<Rightarrow> string \<Rightarrow> loop_state \<Rightarrow> error + loop_state" where
  \<comment> \<open>one round of \<open>for key in ref_keys\<close>; each \<open>continue\<close> hands the state on as it is\<close>
  "loop_body reference_data target_data tgt_keys lang_code k st =
     (if k \<notin> set tgt_keys then Inr st
      else case getitem reference_data k of
        Inl e \<Rightarrow> Inl e
      | Inr ref_val \<Rightarrow>
         (case getitem target_data k of
            Inl e \<Rightarrow> Inl e
          | Inr tgt_val \<Rightarrow>
             (case ref_val of
                JOther x \<Rightarrow> Inr st
              | JStr rs \<Rightarrow>
                 (case tgt_val of
                    JOther y \<Rightarrow> Inr st
                  | JStr ts \<Rightarrow> Inr (analyse k (strip rs) (strip ts) lang_code st)))))"

fun loop ::
  "'a arb \<Rightarrow> 'a arb \<Rightarrow> string list \<Rightarrow> string \<Rightarrow> string list \<Rightarrow> loop_state \<Rightarrow> error + loop_state" where
  "loop reference_data target_data tgt_keys lang_code [] st = Inr st"
| "loop reference_data target_data tgt_keys lang_code (k # ks) st =
     (case loop_body reference_data target_data tgt_keys lang_code k st of
        Inl e \<Rightarrow> Inl e
      | Inr st' \<Rightarrow> loop reference_data target_data tgt_keys lang_code ks st')"

definition compare_arb_files :: "'a arb \<Rightarrow> 'a arb \<Rightarrow> string \<Rightarrow> error + report" where
  "compare_arb_files reference_data target_data target_file_name =
     (let ref_keys = filter (\<lambda>k. \<not> startswith k ''@'') (map fst reference_data);
          tgt_keys = filter (\<lambda>k. \<not> startswith k ''@'') (map fst target_data);
          missing_keys = filter (\<lambda>k. k \<notin> set tgt_keys) ref_keys;
          extra_keys = filter (\<lambda>k. k \<notin> set ref_keys) tgt_keys;
          lang_code = (case detect_language_code target_file_name of
                         None \<Rightarrow> ''unknown''
                       | Some code \<Rightarrow> if code = [] then ''unknown'' else code)
      in case loop reference_data target_data tgt_keys lang_code ref_keys
                \<lparr>empty_translations = [], identical_translations = [], parameter_issues = []\<rparr> of
           Inl e \<Rightarrow> Inl e
         | Inr st \<Rightarrow>
             Inr \<lparr>langCode = lang_code, missingKeys = missing_keys, extraKeys = extra_keys,
                  emptyTranslations = empty_translations st,
                  identicalTranslations = identical_translations st,
                  parameterIssues = parameter_issues st\<rparr>)"

section \<open>What the comparator's loop records, key by key\<close>

text \<open>
  The definitions of this section are not code of the program. They name the two key
  lists and the language code that \<open>compare_arb_files\<close> computes before its loop,
  and say where an entry of the three lists that the loop fills comes from.
\<close>

definition plain_keys :: "'a arb \<Rightarrow> string list" where
  \<comment> \<open>\<open>ref_keys\<close> and \<open>tgt_keys\<close> of the source\<close>
  "plain_keys d = filter (\<lambda>k. \<not> startswith k ''@'') (map fst d)"

definition lang_code_of :: "string \<Rightarrow> string" where
  \<comment> \<open>\<open>detect_language_code(target_file_name) or "unknown"\<close>\<close>
  "lang_code_of file_name =
     (case detect_language_code file_name of
        None \<Rightarrow> ''unknown''
      | Some code \<Rightarrow> if code = [] then ''unknown'' else code)"

definition pair_at :: "'a arb \<Rightarrow> 'a arb \<Rightarrow> string \<Rightarrow> (string \<times> string) option" where
  \<comment> \<open>the two stripped strings under a key, when both values are strings\<close>
  "pair_at R T k =
     (case map_of R k of
        Some (JStr a) \<Rightarrow>
          (case map_of T k of Some (JStr b) \<Rightarrow> Some (strip a, strip b) | _ \<Rightarrow> None)
      | _ \<Rightarrow> None)"

definition shared_key :: "'a arb \<Rightarrow> 'a arb \<Rightarrow> string \<Rightarrow> bool" where
  "shared_key R T k = (k \<in> set (plain_keys R) \<and> k \<in> set (plain_keys T))"

text \<open>
  An issue record comes from the pair of strings under its key: its fields are computed
  from the pair as the loop body computes them, and one of its three lists is not empty.
\<close>

definition issue_from :: "'a arb \<Rightarrow> 'a arb \<Rightarrow> string \<Rightarrow> issue \<Rightarrow> bool" where
  "issue_from R T lang i =
     (\<exists>a b. pair_at R T (key i) = Some (a, b) \<and> reference i = a \<and> target i = b \<and>
        textIssues i = check_text_issues a b lang \<and>
        missingParams i = extract_params a - extract_params b \<and>
        extraParams i = extract_params b - extract_params a \<and>
        (missingParams i \<noteq> {} \<or> extraParams i \<noteq> {} \<or> textIssues i \<noteq> []))"

definition provenance :: "'a arb \<Rightarrow> 'a arb \<Rightarrow> string \<Rightarrow> loop_state \<Rightarrow> bool" where
  "provenance R T lang st =
     ((\<forall>k \<in> set (empty_translations st).
         shared_key R T k \<and> (\<exists>a. pair_at R T k = Some (a, [])))
      \<and> (\<forall>k \<in> set (identical_translations st).
         shared_key R T k \<and> (\<exists>a. a \<noteq> [] \<and> pair_at R T k = Some (a, a)))
      \<and> (\<forall>i \<in> set (parameter_issues st).
         shared_key R T (key i) \<and> issue_from R T lang i))"

definition report_of :: "'a arb \<Rightarrow> 'a arb \<Rightarrow> string \<Rightarrow> loop_state \<Rightarrow> report" where
  "report_of R T fn st =
     \<lparr>langCode = lang_code_of fn,
      missingKeys = filter (\<lambda>k. k \<notin> set (plain_keys T)) (plain_keys R),
      extraKeys = filter (\<lambda>k. k \<notin> set (plain_keys R)) (plain_keys T),
      emptyTranslations = empty_translations st,
      identicalTranslations = identical_translations st,
      parameterIssues = parameter_issues st\<rparr>"

section \<open>Strings: substrings, and what \<open>strip\<close> leaves at the ends\<close>

lemma contains_iff: "contains s p \<longleftrightarrow> sublist p s"
  by (induction s) (simp_all add: sublist_Cons_right)

lemma strip_Cons: "strip s = c # r \<Longrightarrow> \<not> isspace c"
proof -
  assume a: "strip s = c # r"
  show ?thesis
  proof (cases "dropWhile isspace s")
    case Nil
    with a show ?thesis by (simp add: strip_def)
  next
    case (Cons x t)
    then have x: "\<not> isspace x" by (simp add: dropWhile_eq_Cons_conv)
    then have "dropWhile isspace (rev t @ [x]) = dropWhile isspace (rev t) @ [x]"
      by (simp add: dropWhile_append3)
    with a Cons have "c = x" by (simp add: strip_def)
    with x show ?thesis by simp
  qed
qed

lemma strip_snoc: "strip s = r @ [c] \<Longrightarrow> \<not> isspace c"
proof -
  assume "strip s = r @ [c]"
  then have "rev (rev (dropWhile isspace (rev (dropWhile isspace s)))) = rev (r @ [c])"
    unfolding strip_def by (rule arg_cong)
  then have "dropWhile isspace (rev (dropWhile isspace s)) = c # rev r"
    by simp
  then show ?thesis by (simp add: dropWhile_eq_Cons_conv)
qed

lemma startswith_single: "startswith s [c] \<longleftrightarrow> (\<exists>r. s = c # r)"
  by (cases s) (auto simp: startswith_def)

lemma endswith_single: "endswith s [c] \<longleftrightarrow> (\<exists>r. s = r @ [c])"
  by (auto simp: endswith_def suffix_def)

lemma isspace_space: "isspace CHR '' ''"
  by (simp add: isspace_def)

lemma isspace_newline: "isspace newline"
  by (simp add: isspace_def newline_def)

lemma strip_no_edge_space:
  "isspace c \<Longrightarrow> \<not> startswith (strip s) [c] \<and> \<not> endswith (strip s) [c]"
  by (auto simp: startswith_single endswith_single dest: strip_Cons strip_snoc)

lemma check_text_issues_strip:
  "''missing_start_space'' \<notin> set (check_text_issues (strip a) (strip b) lang) \<and>
   ''missing_end_space'' \<notin> set (check_text_issues (strip a) (strip b) lang) \<and>
   ''missing_start_line_break'' \<notin> set (check_text_issues (strip a) (strip b) lang) \<and>
   ''missing_end_line_break'' \<notin> set (check_text_issues (strip a) (strip b) lang)"
  using strip_no_edge_space [OF isspace_space, of a] strip_no_edge_space [OF isspace_newline, of a]
  by (simp add: check_text_issues_def)

lemma check_text_issues_ja:
  "set (check_text_issues a b ''ja'') \<inter> {''missing_end_dot'', ''extra_end_dot''} = {}"
  by (simp add: check_text_issues_def)

lemma check_text_issues_same: "check_text_issues s s c = []"
  by (simp add: check_text_issues_def)

section \<open>The detector's loop returns the first match\<close>

lemma detect_loop_None:
  "detect_loop t n = None \<longleftrightarrow> (\<forall>p \<in> set t. \<not> sublist (fst p) n)"
  by (induction t n rule: detect_loop.induct) (simp_all add: contains_iff)

lemma detect_loop_Some:
  "detect_loop t n = Some c \<longleftrightarrow>
     (\<exists>earlier lang later. t = earlier @ (lang, c) # later \<and> sublist lang n \<and>
        (\<forall>p \<in> set earlier. \<not> sublist (fst p) n))"
proof (induction t n rule: detect_loop.induct)
  case (1 n)
  then show ?case by simp
next
  case (2 lang code rest n)
  show ?case
  proof (cases "sublist lang n")
    case True
    have "code = c \<longleftrightarrow> (\<exists>earlier l later. (lang, code) # rest = earlier @ (l, c) # later \<and>
        sublist l n \<and> (\<forall>p \<in> set earlier. \<not> sublist (fst p) n))" (is "?L \<longleftrightarrow> ?R")
    proof
      assume ?L
      with True have "(lang, code) # rest = [] @ (lang, c) # rest \<and> sublist lang n \<and>
          (\<forall>p \<in> set []. \<not> sublist (fst p) n)"
        by simp
      then show ?R by blast
    next
      assume ?R
      then obtain earlier l later where d: "(lang, code) # rest = earlier @ (l, c) # later"
        and e: "\<forall>p \<in> set earlier. \<not> sublist (fst p) n"
        by blast
      show ?L
      proof (cases earlier)
        case Nil
        with d show ?thesis by simp
      next
        case (Cons p ps)
        with d have "p = (lang, code)" by simp
        with e Cons True show ?thesis by simp
      qed
    qed
    with True show ?thesis by (simp add: contains_iff)
  next
    case False
    have "(\<exists>earlier l later. rest = earlier @ (l, c) # later \<and>
        sublist l n \<and> (\<forall>p \<in> set earlier. \<not> sublist (fst p) n)) \<longleftrightarrow>
      (\<exists>earlier l later. (lang, code) # rest = earlier @ (l, c) # later \<and>
        sublist l n \<and> (\<forall>p \<in> set earlier. \<not> sublist (fst p) n))" (is "?L \<longleftrightarrow> ?R")
    proof
      assume ?L
      then obtain earlier l later where d: "rest = earlier @ (l, c) # later" "sublist l n"
        and e: "\<forall>p \<in> set earlier. \<not> sublist (fst p) n"
        by blast
      from d e False have "(lang, code) # rest = ((lang, code) # earlier) @ (l, c) # later \<and>
          sublist l n \<and> (\<forall>p \<in> set ((lang, code) # earlier). \<not> sublist (fst p) n)"
        by simp
      then show ?R by blast
    next
      assume ?R
      then obtain earlier l later where d: "(lang, code) # rest = earlier @ (l, c) # later"
        "sublist l n" and e: "\<forall>p \<in> set earlier. \<not> sublist (fst p) n"
        by blast
      show ?L
      proof (cases earlier)
        case Nil
        with d False show ?thesis by simp
      next
        case (Cons p ps)
        with d e have "rest = ps @ (l, c) # later \<and> sublist l n \<and>
            (\<forall>p \<in> set ps. \<not> sublist (fst p) n)"
          by simp
        then show ?thesis by blast
      qed
    qed
    with False 2 show ?thesis by (simp add: contains_iff)
  qed
qed

section \<open>The loop returns, and every entry has its provenance\<close>

lemma plain_keys_dom: "k \<in> set (plain_keys d) \<Longrightarrow> \<exists>v. map_of d k = Some v"
  by (auto simp: plain_keys_def dest: weak_map_of_SomeI)

lemma analyse_provenance:
  assumes "provenance R T lang st" "shared_key R T k" "pair_at R T k = Some (a, b)"
  shows "provenance R T lang (analyse k a b lang st)"
  using assms
  by (auto simp: provenance_def analyse_def Let_def issue_from_def)

lemma loop_body_provenance:
  assumes "k \<in> set (plain_keys R)" "provenance R T lang st"
  shows "\<exists>st'. loop_body R T (plain_keys T) lang k st = Inr st' \<and> provenance R T lang st'"
proof (cases "k \<in> set (plain_keys T)")
  case False
  then show ?thesis using assms by (simp add: loop_body_def)
next
  case True
  obtain u where u: "map_of R k = Some u" using plain_keys_dom [OF assms(1)] by blast
  obtain v where v: "map_of T k = Some v" using plain_keys_dom [OF True] by blast
  show ?thesis
  proof (cases "pair_at R T k")
    case None
    then show ?thesis using assms True u v
      by (auto simp: loop_body_def getitem_def pair_at_def split: jvalue.splits)
  next
    case (Some ab)
    obtain a b where ab: "ab = (a, b)" by (cases ab)
    have sk: "shared_key R T k" using assms(1) True by (simp add: shared_key_def)
    have p: "provenance R T lang (analyse k a b lang st)"
      using analyse_provenance [OF assms(2) sk] Some ab by simp
    from Some ab u v have "loop_body R T (plain_keys T) lang k st = Inr (analyse k a b lang st)"
      using True by (auto simp: loop_body_def getitem_def pair_at_def split: jvalue.splits)
    with p show ?thesis by simp
  qed
qed

lemma loop_provenance:
  "set ks \<subseteq> set (plain_keys R) \<Longrightarrow> provenance R T lang st \<Longrightarrow>
   \<exists>st'. loop R T (plain_keys T) lang ks st = Inr st' \<and> provenance R T lang st'"
proof (induction ks arbitrary: st)
  case Nil
  then show ?case by simp
next
  case (Cons k ks)
  from Cons.prems have "k \<in> set (plain_keys R)" by simp
  from loop_body_provenance [OF this Cons.prems(2)]
  obtain s where s: "loop_body R T (plain_keys T) lang k st = Inr s" "provenance R T lang s"
    by blast
  from Cons.prems have "set ks \<subseteq> set (plain_keys R)" by simp
  from Cons.IH [OF this s(2)] s(1) show ?case by simp
qed

lemma compare_arb_files_returns:
  obtains st where
    "provenance R T (lang_code_of fn) st"
    "compare_arb_files R T fn = Inr (report_of R T fn st)"
proof -
  let ?st0 = "\<lparr>empty_translations = [], identical_translations = [], parameter_issues = []\<rparr>"
  have "provenance R T (lang_code_of fn) ?st0"
    by (simp add: provenance_def)
  from loop_provenance [OF subset_refl this]
  obtain st where st: "loop R T (plain_keys T) (lang_code_of fn) (plain_keys R) ?st0 = Inr st"
    "provenance R T (lang_code_of fn) st"
    by blast
  from st(1) have "compare_arb_files R T fn = Inr (report_of R T fn st)"
    by (simp add: compare_arb_files_def report_of_def Let_def plain_keys_def [symmetric]
        lang_code_of_def [symmetric])
  with st(2) that show thesis
    by blast
qed

lemma pair_at_strip: "pair_at R T k = Some (x, y) \<Longrightarrow> \<exists>a b. x = strip a \<and> y = strip b"
  by (auto simp: pair_at_def split: option.splits jvalue.splits)

lemma plain_keys_no_at: "k \<in> set (plain_keys d) \<Longrightarrow> \<not> startswith k ''@''"
  by (simp add: plain_keys_def)

section \<open>The language detector\<close>

text \<open>
  Claim C4. \<open>detect_language_code\<close> lower-cases the file name and goes through the
  table in the order dutch, german, italian, japanese, korean, polish, portuguese,
  russian, spanish, turkish, french, fr, english. It returns nothing exactly when no
  name of the table occurs in the lower-cased file name. It returns a code \<open>c\<close> exactly
  when the table splits into the entries before some entry with the code \<open>c\<close>, that
  entry, whose name occurs in the lower-cased file name, and the entries after it, with
  no name of an entry before it occurring there. For \<open>french_file.arb\<close> the result is
  \<open>fr\<close>.
\<close>

theorem C4_detect_language_code_first_match:
  "map fst language_map =
     [''dutch'', ''german'', ''italian'', ''japanese'', ''korean'', ''polish'', ''portuguese'',
      ''russian'', ''spanish'', ''turkish'', ''french'', ''fr'', ''english'']
   \<and> (detect_language_code f = None \<longleftrightarrow>
        (\<forall>p \<in> set language_map. \<not> sublist (fst p) (lower f)))
   \<and> (detect_language_code f = Some c \<longleftrightarrow>
        (\<exists>earlier lang later. language_map = earlier @ (lang, c) # later \<and>
           sublist lang (lower f) \<and> (\<forall>p \<in> set earlier. \<not> sublist (fst p) (lower f))))
   \<and> detect_language_code ''french_file.arb'' = Some ''fr''"
proof -
  have "detect_language_code ''french_file.arb'' = Some ''fr''"
    by (simp add: detect_language_code_def language_map_def lower_def lower_char_def
        isupper_def)
  moreover have "map fst language_map =
     [''dutch'', ''german'', ''italian'', ''japanese'', ''korean'', ''polish'', ''portuguese'',
      ''russian'', ''spanish'', ''turkish'', ''french'', ''fr'', ''english'']"
    by (simp add: language_map_def)
  ultimately show ?thesis
    by (simp only: detect_language_code_def detect_loop_None detect_loop_Some simp_thms)
qed

theorem C4_detect_language_code_first_match_witness:
  "\<exists>earlier lang later. language_map = earlier @ (lang, ''es'') # later \<and>
     sublist lang (lower ''My_Spanish_v2.arb'')"
proof -
  have "detect_language_code ''My_Spanish_v2.arb'' = Some ''es''"
    by code_simp
  with C4_detect_language_code_first_match [of "''My_Spanish_v2.arb''" "''es''"]
  show ?thesis by blast
qed

text \<open>
  Claim C5. Whatever the source string, the target string and the language code, the
  list that \<open>check_text_issues\<close> returns holds at most one entry among
  \<open>missing_end_dot\<close> and \<open>extra_end_dot\<close>, so never both, and holds neither when the
  language code is \<open>ja\<close>.
\<close>

theorem C5_end_dot_codes_exclusive:
  "length (filter (\<lambda>c. c = ''missing_end_dot'' \<or> c = ''extra_end_dot'')
      (check_text_issues src tgt lang_code)) \<le> 1
   \<and> \<not> (''missing_end_dot'' \<in> set (check_text_issues src tgt lang_code) \<and>
        ''extra_end_dot'' \<in> set (check_text_issues src tgt lang_code))
   \<and> (lang_code = ''ja'' \<longrightarrow>
        ''missing_end_dot'' \<notin> set (check_text_issues src tgt lang_code) \<and>
        ''extra_end_dot'' \<notin> set (check_text_issues src tgt lang_code))"
  by (simp add: check_text_issues_def)

theorem C5_end_dot_codes_exclusive_witness:
  "''missing_end_dot'' \<notin> set (check_text_issues ''Done.'' ''Done'' ''ja'') \<and>
   ''extra_end_dot'' \<notin> set (check_text_issues ''Done.'' ''Done'' ''ja'')"
  using C5_end_dot_codes_exclusive [of "''Done.''" "''Done''" "''ja''"] by simp

section \<open>The comparator's report\<close>

text \<open>
  Every statement below about \<open>compare_arb_files\<close> says first that the call returns a
  report (\<open>Inr r\<close>): the two subscripts of the loop never raise, since the loop reads
  the reference under a key of the reference and the target under a key that it has
  just found among the target's keys.
\<close>

text \<open>
  Claim C1, as amended. For the reference \<open>{"x": ""}\<close> and the target \<open>{"x": ""}\<close> with
  the target file name \<open>es.arb\<close>, the report's \<open>emptyTranslations\<close> is \<open>["x"]\<close> and its
  \<open>langCode\<close> is \<open>unknown\<close>: the detector looks for language names, and \<open>es.arb\<close>
  contains none. With the file name \<open>spanish.arb\<close> the same two mappings give
  \<open>emptyTranslations = ["x"]\<close> and \<open>langCode = es\<close>.
\<close>

theorem C1_scenario_B:
  "(\<exists>r. compare_arb_files [(''x'', JStr '''')] [(''x'', JStr '''' :: int jvalue)] ''es.arb''
          = Inr r \<and> emptyTranslations r = [''x''] \<and> langCode r = ''unknown'')
   \<and> (\<exists>r. compare_arb_files [(''x'', JStr '''')] [(''x'', JStr '''' :: int jvalue)] ''spanish.arb''
          = Inr r \<and> emptyTranslations r = [''x''] \<and> langCode r = ''es'')"
proof -
  have "compare_arb_files [(''x'', JStr '''')] [(''x'', JStr '''' :: int jvalue)] ''es.arb''
     = Inr \<lparr>langCode = ''unknown'', missingKeys = [], extraKeys = [],
            emptyTranslations = [''x''], identicalTranslations = [],
            parameterIssues = []\<rparr>"
    by code_simp
  moreover have
    "compare_arb_files [(''x'', JStr '''')] [(''x'', JStr '''' :: int jvalue)] ''spanish.arb''
     = Inr \<lparr>langCode = ''es'', missingKeys = [], extraKeys = [],
            emptyTranslations = [''x''], identicalTranslations = [],
            parameterIssues = []\<rparr>"
    by code_simp
  ultimately show ?thesis by simp
qed

text \<open>
  Claim C1 as it was stated asks for \<open>langCode = es\<close> at the file name \<open>es.arb\<close>. The
  report at that input is the following one, with \<open>langCode = unknown\<close>.
\<close>

theorem C1_es_arb_counterexample:
  "compare_arb_files [(''x'', JStr '''')] [(''x'', JStr '''' :: int jvalue)] ''es.arb''
     = Inr \<lparr>langCode = ''unknown'', missingKeys = [], extraKeys = [],
            emptyTranslations = [''x''], identicalTranslations = [],
            parameterIssues = []\<rparr>"
  by code_simp

text \<open>
  Claim C2, as amended. Take any reference and target, among them a reference whose
  value at a key is \<open>Done.\<close> and a target whose value at that key is \<open>Done\<close>, and a
  target file name for which \<open>detect_language_code\<close> returns \<open>ja\<close>, such as
  \<open>japanese.arb\<close>. Then the report has \<open>langCode = ja\<close>, and no record of
  \<open>parameterIssues\<close> lists \<open>missing_end_dot\<close>.
\<close>

theorem C2_japanese_exemption:
  assumes "detect_language_code fn = Some ''ja''"
  shows "\<exists>r. compare_arb_files R T fn = Inr r \<and> langCode r = ''ja'' \<and>
     (\<forall>i \<in> set (parameterIssues r). ''missing_end_dot'' \<notin> set (textIssues i))"
proof -
  obtain st where p: "provenance R T (lang_code_of fn) st"
    and c: "compare_arb_files R T fn = Inr (report_of R T fn st)"
    by (rule compare_arb_files_returns)
  have l: "lang_code_of fn = ''ja''"
    using assms by (simp add: lang_code_of_def)
  have "''missing_end_dot'' \<notin> set (textIssues i)" if "i \<in> set (parameter_issues st)" for i
  proof -
    from p that have "issue_from R T ''ja'' i"
      by (simp add: provenance_def l)
    then obtain x y where "textIssues i = check_text_issues x y ''ja''"
      unfolding issue_from_def by blast
    with check_text_issues_ja [of x y] show ?thesis
      by simp
  qed
  with c l show ?thesis
    by (simp add: report_of_def)
qed

theorem C2_japanese_exemption_witness:
  "\<exists>r i. compare_arb_files [(''k'', JStr ''{n} Done.'')] [(''k'', JStr ''Done'' :: int jvalue)]
          ''japanese.arb'' = Inr r \<and>
     langCode r = ''ja'' \<and> parameterIssues r = [i] \<and> key i = ''k'' \<and>
     reference i = ''{n} Done.'' \<and> target i = ''Done'' \<and>
     ''missing_end_dot'' \<notin> set (textIssues i)"
proof -
  have d: "detect_language_code ''japanese.arb'' = Some ''ja''"
    by code_simp
  have "compare_arb_files [(''k'', JStr ''{n} Done.'')] [(''k'', JStr ''Done'' :: int jvalue)]
          ''japanese.arb''
      = Inr \<lparr>langCode = ''ja'', missingKeys = [], extraKeys = [],
             emptyTranslations = [], identicalTranslations = [],
             parameterIssues =
               [\<lparr>key = ''k'', reference = ''{n} Done.'', target = ''Done'',
                 missingParams = {''n''}, extraParams = {}, textIssues = []\<rparr>]\<rparr>"
    by code_simp
  moreover from C2_japanese_exemption [OF d]
  obtain r where
    r: "compare_arb_files [(''k'', JStr ''{n} Done.'')] [(''k'', JStr ''Done'' :: int jvalue)]
          ''japanese.arb'' = Inr r"
    and q: "langCode r = ''ja''"
      "\<forall>i \<in> set (parameterIssues r). ''missing_end_dot'' \<notin> set (textIssues i)"
    by blast
  ultimately obtain i where i: "parameterIssues r = [i]" "key i = ''k''"
    "reference i = ''{n} Done.''" "target i = ''Done''"
    by auto
  with q have "''missing_end_dot'' \<notin> set (textIssues i)"
    by simp
  with r q i show ?thesis
    by (intro exI [of _ r] exI [of _ i]) simp
qed

text \<open>
  Claim C2 as it was stated takes the file name \<open>ja.arb\<close>. That name contains no
  language name of the table, the language code is \<open>unknown\<close>, and the record for the
  key lists \<open>missing_end_dot\<close>.
\<close>

theorem C2_ja_arb_counterexample:
  "compare_arb_files [(''k'', JStr ''Done.'')] [(''k'', JStr ''Done'' :: int jvalue)] ''ja.arb''
     = Inr \<lparr>langCode = ''unknown'', missingKeys = [], extraKeys = [],
            emptyTranslations = [], identicalTranslations = [],
            parameterIssues =
              [\<lparr>key = ''k'', reference = ''Done.'', target = ''Done'', missingParams = {},
                extraParams = {}, textIssues = [''missing_end_dot'']\<rparr>]\<rparr>"
  by code_simp

text \<open>
  Claim C3. For every pair of mappings and every target file name, each record of
  \<open>parameterIssues\<close> holds two stripped strings as its reference and target, its
  \<open>textIssues\<close> is the result of \<open>check_text_issues\<close> on these two, and it lists none of
  \<open>missing_start_space\<close>, \<open>missing_end_space\<close>, \<open>missing_start_line_break\<close> and
  \<open>missing_end_line_break\<close>.
\<close>

theorem C3_no_edge_whitespace_codes:
  "\<exists>r. compare_arb_files R T fn = Inr r \<and>
     (\<forall>i \<in> set (parameterIssues r).
        (\<exists>a b. reference i = strip a \<and> target i = strip b) \<and>
        textIssues i = check_text_issues (reference i) (target i) (langCode r) \<and>
        ''missing_start_space'' \<notin> set (textIssues i) \<and>
        ''missing_end_space'' \<notin> set (textIssues i) \<and>
        ''missing_start_line_break'' \<notin> set (textIssues i) \<and>
        ''missing_end_line_break'' \<notin> set (textIssues i))"
proof -
  obtain st where p: "provenance R T (lang_code_of fn) st"
    and c: "compare_arb_files R T fn = Inr (report_of R T fn st)"
    by (rule compare_arb_files_returns)
  have "(\<exists>a b. reference i = strip a \<and> target i = strip b) \<and>
        textIssues i = check_text_issues (reference i) (target i) (lang_code_of fn) \<and>
        ''missing_start_space'' \<notin> set (textIssues i) \<and>
        ''missing_end_space'' \<notin> set (textIssues i) \<and>
        ''missing_start_line_break'' \<notin> set (textIssues i) \<and>
        ''missing_end_line_break'' \<notin> set (textIssues i)"
    if "i \<in> set (parameter_issues st)" for i
  proof -
    from p that have "issue_from R T (lang_code_of fn) i"
      by (simp add: provenance_def)
    then obtain x y where xy: "pair_at R T (key i) = Some (x, y)" "reference i = x" "target i = y"
      "textIssues i = check_text_issues x y (lang_code_of fn)"
      unfolding issue_from_def by blast
    from pair_at_strip [OF xy(1)] obtain a b where ab: "x = strip a" "y = strip b"
      by blast
    have "''missing_start_space'' \<notin> set (textIssues i) \<and>
        ''missing_end_space'' \<notin> set (textIssues i) \<and>
        ''missing_start_line_break'' \<notin> set (textIssues i) \<and>
        ''missing_end_line_break'' \<notin> set (textIssues i)"
      using check_text_issues_strip [of a b "lang_code_of fn"] xy(4) ab by simp
    moreover have "\<exists>a b. reference i = strip a \<and> target i = strip b"
      using xy ab by blast
    ultimately show ?thesis using xy by simp
  qed
  then have "\<forall>i \<in> set (parameterIssues (report_of R T fn st)).
        (\<exists>a b. reference i = strip a \<and> target i = strip b) \<and>
        textIssues i =
          check_text_issues (reference i) (target i) (langCode (report_of R T fn st)) \<and>
        ''missing_start_space'' \<notin> set (textIssues i) \<and>
        ''missing_end_space'' \<notin> set (textIssues i) \<and>
        ''missing_start_line_break'' \<notin> set (textIssues i) \<and>
        ''missing_end_line_break'' \<notin> set (textIssues i)"
    unfolding report_of_def report.simps by blast
  with c show ?thesis
    by blast
qed

theorem C3_no_edge_whitespace_codes_witness:
  "\<exists>r i. compare_arb_files [(''a'', JStr '' Hi. '')] [(''a'', JStr ''Ho'' :: int jvalue)] ''x.arb''
        = Inr r \<and>
     parameterIssues r = [i] \<and> reference i = ''Hi.'' \<and> target i = ''Ho'' \<and>
     ''missing_start_space'' \<notin> set (textIssues i) \<and>
     ''missing_end_space'' \<notin> set (textIssues i) \<and>
     ''missing_start_line_break'' \<notin> set (textIssues i) \<and>
     ''missing_end_line_break'' \<notin> set (textIssues i)"
proof -
  have "compare_arb_files [(''a'', JStr '' Hi. '')] [(''a'', JStr ''Ho'' :: int jvalue)] ''x.arb''
      = Inr \<lparr>langCode = ''unknown'', missingKeys = [], extraKeys = [],
             emptyTranslations = [], identicalTranslations = [],
             parameterIssues =
               [\<lparr>key = ''a'', reference = ''Hi.'', target = ''Ho'', missingParams = {},
                 extraParams = {}, textIssues = [''missing_end_dot'']\<rparr>]\<rparr>"
    by code_simp
  moreover from C3_no_edge_whitespace_codes
    [of "[(''a'', JStr '' Hi. '')]" "[(''a'', JStr ''Ho'' :: int jvalue)]" "''x.arb''"]
  obtain r where
    r: "compare_arb_files [(''a'', JStr '' Hi. '')] [(''a'', JStr ''Ho'' :: int jvalue)] ''x.arb''
        = Inr r"
    and q: "\<forall>i \<in> set (parameterIssues r).
        ''missing_start_space'' \<notin> set (textIssues i) \<and>
        ''missing_end_space'' \<notin> set (textIssues i) \<and>
        ''missing_start_line_break'' \<notin> set (textIssues i) \<and>
        ''missing_end_line_break'' \<notin> set (textIssues i)"
    by blast
  ultimately obtain i where i: "parameterIssues r = [i]" "reference i = ''Hi.''"
    "target i = ''Ho''"
    by auto
  with q have "''missing_start_space'' \<notin> set (textIssues i) \<and>
        ''missing_end_space'' \<notin> set (textIssues i) \<and>
        ''missing_start_line_break'' \<notin> set (textIssues i) \<and>
        ''missing_end_line_break'' \<notin> set (textIssues i)"
    by simp
  with r i show ?thesis
    by (intro exI [of _ r] exI [of _ i]) simp
qed

text \<open>
  Claim C6. For every pair of mappings and every target file name, no key is in both
  \<open>emptyTranslations\<close> and \<open>identicalTranslations\<close> of the report.
\<close>

theorem C6_empty_identical_disjoint:
  "\<exists>r. compare_arb_files R T fn = Inr r \<and>
     set (emptyTranslations r) \<inter> set (identicalTranslations r) = {}"
proof -
  obtain st where p: "provenance R T (lang_code_of fn) st"
    and c: "compare_arb_files R T fn = Inr (report_of R T fn st)"
    by (rule compare_arb_files_returns)
  have "k \<notin> set (identical_translations st)" if "k \<in> set (empty_translations st)" for k
  proof
    assume "k \<in> set (identical_translations st)"
    with p obtain a where a: "a \<noteq> []" "pair_at R T k = Some (a, a)"
      unfolding provenance_def by blast
    from p that obtain b where "pair_at R T k = Some (b, [])"
      unfolding provenance_def by blast
    with a show False by simp
  qed
  then have "set (empty_translations st) \<inter> set (identical_translations st) = {}"
    by blast
  with c show ?thesis
    by (simp add: report_of_def)
qed

theorem C6_empty_identical_disjoint_witness:
  "\<exists>r. compare_arb_files [(''a'', JStr ''x''), (''b'', JStr ''y'')]
          [(''a'', JStr '' ''), (''b'', JStr ''y'' :: int jvalue)] ''x.arb'' = Inr r \<and>
     emptyTranslations r = [''a''] \<and> identicalTranslations r = [''b''] \<and>
     set (emptyTranslations r) \<inter> set (identicalTranslations r) = {}"
proof -
  have "compare_arb_files [(''a'', JStr ''x''), (''b'', JStr ''y'')]
          [(''a'', JStr '' ''), (''b'', JStr ''y'' :: int jvalue)] ''x.arb''
      = Inr \<lparr>langCode = ''unknown'', missingKeys = [], extraKeys = [],
             emptyTranslations = [''a''], identicalTranslations = [''b''],
             parameterIssues = []\<rparr>"
    by code_simp
  moreover from C6_empty_identical_disjoint
    [of "[(''a'', JStr ''x''), (''b'', JStr ''y'')]"
        "[(''a'', JStr '' ''), (''b'', JStr ''y'' :: int jvalue)]" "''x.arb''"]
  obtain r where
    r: "compare_arb_files [(''a'', JStr ''x''), (''b'', JStr ''y'')]
          [(''a'', JStr '' ''), (''b'', JStr ''y'' :: int jvalue)] ''x.arb'' = Inr r"
    and q: "set (emptyTranslations r) \<inter> set (identicalTranslations r) = {}"
    by blast
  ultimately have "emptyTranslations r = [''a''] \<and> identicalTranslations r = [''b'']"
    by simp
  with r q show ?thesis
    by (intro exI [of _ r]) simp
qed

text \<open>
  Claim C7. For every pair of mappings and every target file name, \<open>missingKeys\<close> and
  \<open>extraKeys\<close> of the report have no key in common.
\<close>

theorem C7_missing_extra_disjoint:
  "\<exists>r. compare_arb_files R T fn = Inr r \<and> set (missingKeys r) \<inter> set (extraKeys r) = {}"
proof -
  obtain st where c: "compare_arb_files R T fn = Inr (report_of R T fn st)"
    by (rule compare_arb_files_returns)
  have "set (missingKeys (report_of R T fn st)) \<inter> set (extraKeys (report_of R T fn st)) = {}"
    by (auto simp: report_of_def)
  with c show ?thesis
    by simp
qed

theorem C7_missing_extra_disjoint_witness:
  "\<exists>r. compare_arb_files [(''a'', JStr ''Hello {name}.''), (''b'', JStr ''Bye'')]
          [(''a'', JStr ''Hola {name}''), (''c'', JStr ''Adios'' :: int jvalue)] ''x.arb'' = Inr r \<and>
     missingKeys r = [''b''] \<and> extraKeys r = [''c''] \<and>
     set (missingKeys r) \<inter> set (extraKeys r) = {}"
proof -
  have "compare_arb_files [(''a'', JStr ''Hello {name}.''), (''b'', JStr ''Bye'')]
          [(''a'', JStr ''Hola {name}''), (''c'', JStr ''Adios'' :: int jvalue)] ''x.arb''
      = Inr \<lparr>langCode = ''unknown'', missingKeys = [''b''], extraKeys = [''c''],
             emptyTranslations = [], identicalTranslations = [],
             parameterIssues =
               [\<lparr>key = ''a'', reference = ''Hello {name}.'', target = ''Hola {name}'',
                 missingParams = {}, extraParams = {},
                 textIssues = [''missing_end_dot'']\<rparr>]\<rparr>"
    by code_simp
  moreover from C7_missing_extra_disjoint
    [of "[(''a'', JStr ''Hello {name}.''), (''b'', JStr ''Bye'')]"
        "[(''a'', JStr ''Hola {name}''), (''c'', JStr ''Adios'' :: int jvalue)]" "''x.arb''"]
  obtain r where
    r: "compare_arb_files [(''a'', JStr ''Hello {name}.''), (''b'', JStr ''Bye'')]
          [(''a'', JStr ''Hola {name}''), (''c'', JStr ''Adios'' :: int jvalue)] ''x.arb'' = Inr r"
    and q: "set (missingKeys r) \<inter> set (extraKeys r) = {}"
    by blast
  ultimately have "missingKeys r = [''b''] \<and> extraKeys r = [''c'']"
    by simp
  with r q show ?thesis
    by (intro exI [of _ r]) simp
qed

text \<open>
  Claim C8. Let a key that does not begin with \<open>@\<close> be a key of both mappings, with a
  value that is not a string in the reference or in the target. Then the call returns a
  report, and the key is in none of \<open>emptyTranslations\<close>, \<open>identicalTranslations\<close> and
  the keys of \<open>parameterIssues\<close>.
\<close>

theorem C8_non_string_values_skipped:
  assumes "k \<in> fst ` set R" and "k \<in> fst ` set T" and "\<not> startswith k ''@''"
    and "(\<exists>x. map_of R k = Some (JOther x)) \<or> (\<exists>y. map_of T k = Some (JOther y))"
  shows "\<exists>r. compare_arb_files R T fn = Inr r \<and>
     k \<notin> set (emptyTranslations r) \<and> k \<notin> set (identicalTranslations r) \<and>
     k \<notin> key ` set (parameterIssues r)"
proof -
  obtain st where p: "provenance R T (lang_code_of fn) st"
    and c: "compare_arb_files R T fn = Inr (report_of R T fn st)"
    by (rule compare_arb_files_returns)
  from assms(4) have n: "pair_at R T k = None"
    by (auto simp: pair_at_def split: option.splits jvalue.splits)
  have "k \<notin> set (empty_translations st)"
    using p n unfolding provenance_def by force
  moreover have "k \<notin> set (identical_translations st)"
    using p n unfolding provenance_def by force
  moreover have "k \<notin> key ` set (parameter_issues st)"
    using p n unfolding provenance_def issue_from_def by force
  ultimately show ?thesis using c
    by (simp add: report_of_def)
qed

theorem C8_non_string_values_skipped_witness:
  "\<exists>r. compare_arb_files [(''n'', JOther 123), (''s'', JStr ''a'')]
          [(''n'', JOther (123 :: int)), (''s'', JStr ''b.'')] ''x.arb'' = Inr r \<and>
     ''n'' \<notin> set (emptyTranslations r) \<and> ''n'' \<notin> set (identicalTranslations r) \<and>
     ''n'' \<notin> key ` set (parameterIssues r)"
  using C8_non_string_values_skipped
    [of "''n''" "[(''n'', JOther 123), (''s'', JStr ''a'')]"
        "[(''n'', JOther (123 :: int)), (''s'', JStr ''b.'')]" "''x.arb''"]
  by (simp add: startswith_def)

text \<open>
  Claim C9. For every pair of mappings and every target file name, a key that begins
  with \<open>@\<close> is in none of \<open>missingKeys\<close>, \<open>extraKeys\<close>, \<open>emptyTranslations\<close>,
  \<open>identicalTranslations\<close> and the keys of \<open>parameterIssues\<close>.
\<close>

theorem C9_no_metadata_key_in_report:
  "\<exists>r. compare_arb_files R T fn = Inr r \<and>
     (\<forall>k. startswith k ''@'' \<longrightarrow>
        k \<notin> set (missingKeys r) \<and> k \<notin> set (extraKeys r) \<and>
        k \<notin> set (emptyTranslations r) \<and> k \<notin> set (identicalTranslations r) \<and>
        k \<notin> key ` set (parameterIssues r))"
proof -
  obtain st where p: "provenance R T (lang_code_of fn) st"
    and c: "compare_arb_files R T fn = Inr (report_of R T fn st)"
    by (rule compare_arb_files_returns)
  have "k \<notin> set (missingKeys (report_of R T fn st)) \<and>
        k \<notin> set (extraKeys (report_of R T fn st)) \<and>
        k \<notin> set (empty_translations st) \<and> k \<notin> set (identical_translations st) \<and>
        k \<notin> key ` set (parameter_issues st)" if at: "startswith k ''@''" for k
  proof -
    have m: "k \<notin> set (plain_keys R)" "k \<notin> set (plain_keys T)"
      using at plain_keys_no_at by blast+
    then have s: "\<not> shared_key R T k"
      by (simp add: shared_key_def)
    have "k \<notin> set (empty_translations st)"
      using p s unfolding provenance_def by blast
    moreover have "k \<notin> set (identical_translations st)"
      using p s unfolding provenance_def by blast
    moreover have "k \<notin> key ` set (parameter_issues st)"
      using p s unfolding provenance_def by blast
    ultimately show ?thesis using m
      by (simp add: report_of_def)
  qed
  with c show ?thesis
    by (simp add: report_of_def)
qed

theorem C9_no_metadata_key_in_report_witness:
  "\<exists>r. compare_arb_files [(''@a'', JStr ''note''), (''a'', JStr ''x'')]
          [(''@a'', JStr ''''), (''@b'', JStr ''m''), (''a'', JStr ''x.'' :: int jvalue)] ''x.arb''
        = Inr r \<and>
     ''@a'' \<notin> set (missingKeys r) \<and> ''@b'' \<notin> set (extraKeys r) \<and>
     ''@a'' \<notin> set (emptyTranslations r) \<and> ''@a'' \<notin> set (identicalTranslations r) \<and>
     ''@a'' \<notin> key ` set (parameterIssues r)"
proof -
  have "startswith ''@a'' ''@''" "startswith ''@b'' ''@''"
    by (simp_all add: startswith_def)
  with C9_no_metadata_key_in_report
    [of "[(''@a'', JStr ''note''), (''a'', JStr ''x'')]"
        "[(''@a'', JStr ''''), (''@b'', JStr ''m''), (''a'', JStr ''x.'' :: int jvalue)]"
        "''x.arb''"]
  show ?thesis by blast
qed

text \<open>
  Claim C10. \<open>check_text_issues\<close> on a string and itself returns the empty list under
  every language code, a set of placeholders has nothing that it lacks itself, and so,
  for every pair of mappings and every target file name, a key of
  \<open>identicalTranslations\<close> is the key of no record of \<open>parameterIssues\<close>.
\<close>

theorem C10_identical_key_has_no_issue:
  "check_text_issues s s c = [] \<and>
   extract_params s - extract_params s = {} \<and>
   (\<exists>r. compare_arb_files R T fn = Inr r \<and>
      (\<forall>k \<in> set (identicalTranslations r). k \<notin> key ` set (parameterIssues r)))"
proof -
  obtain st where p: "provenance R T (lang_code_of fn) st"
    and c: "compare_arb_files R T fn = Inr (report_of R T fn st)"
    by (rule compare_arb_files_returns)
  have "k \<notin> key ` set (parameter_issues st)" if "k \<in> set (identical_translations st)" for k
  proof
    assume "k \<in> key ` set (parameter_issues st)"
    then obtain i where i: "i \<in> set (parameter_issues st)" "key i = k"
      by blast
    with p have "issue_from R T (lang_code_of fn) i"
      by (simp add: provenance_def)
    then obtain x y where xy: "pair_at R T k = Some (x, y)"
      "textIssues i = check_text_issues x y (lang_code_of fn)"
      "missingParams i = extract_params x - extract_params y"
      "extraParams i = extract_params y - extract_params x"
      "missingParams i \<noteq> {} \<or> extraParams i \<noteq> {} \<or> textIssues i \<noteq> []"
      unfolding issue_from_def i(2) by blast
    from p that obtain a where "pair_at R T k = Some (a, a)"
      unfolding provenance_def by blast
    with xy(1) have "x = y" by auto
    with xy show False
      by (simp add: check_text_issues_same)
  qed
  with c show ?thesis
    by (simp add: report_of_def check_text_issues_same)
qed

theorem C10_identical_key_has_no_issue_witness:
  "\<exists>r. compare_arb_files [(''greet'', JStr ''Hi {user}'')]
          [(''greet'', JStr ''Hi {user}'' :: int jvalue)] ''x.arb'' = Inr r \<and>
     identicalTranslations r = [''greet''] \<and>
     ''greet'' \<notin> key ` set (parameterIssues r)"
proof -
  have "compare_arb_files [(''greet'', JStr ''Hi {user}'')]
          [(''greet'', JStr ''Hi {user}'' :: int jvalue)] ''x.arb''
      = Inr \<lparr>langCode = ''unknown'', missingKeys = [], extraKeys = [],
             emptyTranslations = [], identicalTranslations = [''greet''],
             parameterIssues = []\<rparr>"
    by code_simp
  moreover from C10_identical_key_has_no_issue
    [of _ _ "[(''greet'', JStr ''Hi {user}'')]"
        "[(''greet'', JStr ''Hi {user}'' :: int jvalue)]" "''x.arb''"]
  obtain r where
    r: "compare_arb_files [(''greet'', JStr ''Hi {user}'')]
          [(''greet'', JStr ''Hi {user}'' :: int jvalue)] ''x.arb'' = Inr r"
    and q: "\<forall>k \<in> set (identicalTranslations r). k \<notin> key ` set (parameterIssues r)"
    by blast
  ultimately have g: "identicalTranslations r = [''greet'']"
    by simp
  with q have "''greet'' \<notin> key ` set (parameterIssues r)"
    by simp
  with r g show ?thesis
    by (intro exI [of _ r]) simp
qed

end
